theory Spec2Isabelle
  imports Main "HOL-Library.Word"
begin

unbundle bit_operations_syntax

section \<open>The media sender: data model\<close>

text \<open>
  The program is \<^verbatim>\<open>examples/media-sender/main.cpp\<close>: one \<^verbatim>\<open>main\<close> whose local
  variables are captured by reference by the signaling callbacks, by the lambda
  \<^verbatim>\<open>createPeerConnection\<close>, by the watchdog thread and by the UDP relay loop. The
  captured variables are the fields of the record \<open>world\<close>. Calls into the library
  (sessions, tracks, the signaling socket), console output and sleeps are appended to
  \<open>trace\<close> in program order; what a library call answers (a query's result, whether it
  throws) is an input of the function that makes the call.
\<close>

type_synonym byte = "8 word"
type_synonym SSRC = "32 word"

text \<open>A C++ exception derived from \<^verbatim>\<open>std::exception\<close>, with its \<^verbatim>\<open>what()\<close> text.\<close>

datatype exn = Exn string

text \<open>
  A \<^verbatim>\<open>shared_ptr<rtc::PeerConnection>\<close> is \<open>None\<close> (null) or \<open>Some p\<close>, \<open>p\<close> the
  identity of the session object. Each session gets exactly one track, from the single
  \<^verbatim>\<open>addTrack\<close> call made on it, so a track handle is \<open>TrackOf p\<close>.
\<close>

datatype track_h = TrackOf nat

datatype effect =
    Cout string
  | Cerr string
  | Sleep nat
  | WsConnect string
  | WsSend string
  | NewPc nat
  | AddTrack nat nat SSRC
  | SetLocalDescription nat
  | PcClose nat
  | SetRemoteDescription nat string
  | TrackSend track_h "byte list"

text \<open>
  \<open>buffer\<close> is \<^verbatim>\<open>char buffer[BUFFER_SIZE]\<close>, an array read by index; only indices below
  \<open>BUFFER_SIZE\<close> are ever read or written. \<open>lastPacketMs\<close> is an \<^verbatim>\<open>int64_t\<close> holding
  a steady-clock reading in milliseconds; the only arithmetic on it is the difference of
  two such readings, which stays inside the type, so it is an \<open>int\<close>.
  \<open>next_pc\<close> is the allocator behind \<^verbatim>\<open>make_shared\<close>: the identity the next session
  object gets. The last two fields are history variables, not program variables:
  \<open>rebuilds\<close> counts the entries into \<^verbatim>\<open>createPeerConnection\<close> and \<open>published\<close> lists
  the sessions that have been stored into \<open>pc\<close>, oldest first.
\<close>

record world =
  remoteId :: string
  wsOpen :: bool
  pendingOffer :: string
  pc :: "nat option"
  track :: "track_h option"
  idle :: bool
  lastPacketMs :: int
  reconnecting :: bool
  buffer :: "nat \<Rightarrow> byte"
  next_pc :: nat
  trace :: "effect list"
  rebuilds :: nat
  published :: "nat list"

definition emit :: "effect list \<Rightarrow> world \<Rightarrow> world" where
  "emit es w = w\<lparr>trace := trace w @ es\<rparr>"

text \<open>The sessions on which \<^verbatim>\<open>close()\<close> has been called.\<close>

definition closed :: "world \<Rightarrow> nat set" where
  "closed w = {p. PcClose p \<in> set (trace w)}"

text \<open>The strings handed to \<^verbatim>\<open>ws->send\<close> and the packets handed to \<^verbatim>\<open>Track::send\<close>.\<close>

fun ws_sends :: "effect list \<Rightarrow> string list" where
  "ws_sends [] = []"
| "ws_sends (WsSend m # es) = m # ws_sends es"
| "ws_sends (e # es) = ws_sends es"

fun track_sends :: "effect list \<Rightarrow> (track_h \<times> byte list) list" where
  "track_sends [] = []"
| "track_sends (TrackSend t pkt # es) = (t, pkt) # track_sends es"
| "track_sends (e # es) = track_sends es"

definition BUFFER_SIZE :: nat where
  "BUFFER_SIZE = 2048"

definition ssrc :: SSRC where
  "ssrc = 42"

definition idleThresholdMs :: int where
  "idleThresholdMs = 2000"

subsection \<open>The RTP header\<close>

text \<open>
  Modelled from the spec: \<^verbatim>\<open>rtc::RtpHeader\<close>, declared in the library's
  \<^verbatim>\<open>rtc/rtp.hpp\<close>, which is not among the sources. The spec says only that each
  datagram has a header with a synchronization-identifier field at a fixed offset and a
  minimal header size. The layout taken here is the fixed RTP header: 12 bytes, the
  SSRC in bytes 8 to 11 in network byte order; \<open>setSsrc\<close> stores the field and
  \<open>RtpHeader_ssrc\<close> reads it back from a packet.
\<close>

definition RtpHeader_size :: nat where
  "RtpHeader_size = 12"

definition setSsrc :: "SSRC \<Rightarrow> (nat \<Rightarrow> byte) \<Rightarrow> (nat \<Rightarrow> byte)" where
  "setSsrc x buf = buf
     (8 := ucast (drop_bit 24 x), 9 := ucast (drop_bit 16 x),
      10 := ucast (drop_bit 8 x), 11 := ucast x)"

definition RtpHeader_ssrc :: "byte list \<Rightarrow> SSRC option" where
  "RtpHeader_ssrc pkt =
     (if length pkt < RtpHeader_size then None
      else Some (push_bit 24 (ucast (pkt ! 8)) OR push_bit 16 (ucast (pkt ! 9)) OR
                 push_bit 8 (ucast (pkt ! 10)) OR ucast (pkt ! 11)))"

section \<open>Session Factory: createPeerConnection\<close>

text \<open>
  What the library calls of one \<^verbatim>\<open>createPeerConnection\<close> do: all return, or the
  first that throws. \<open>NewPcThrows\<close> is \<^verbatim>\<open>make_shared<rtc::PeerConnection>()\<close>,
  \<open>AddTrackThrows\<close> the media-line setup up to \<^verbatim>\<open>addTrack\<close>, \<open>SetLocalThrows\<close> is
  \<^verbatim>\<open>setLocalDescription()\<close>.
\<close>

datatype build_outcome =
    BuildOk
  | NewPcThrows string
  | AddTrackThrows string
  | SetLocalThrows string

text \<open>Line 147: \<^verbatim>\<open>reconnecting = true\<close>.\<close>

definition cpc_enter :: "world \<Rightarrow> world" where
  "cpc_enter w = w\<lparr>reconnecting := True, rebuilds := Suc (rebuilds w)\<rparr>"

text \<open>
  Lines 148 to 178: the new session, its callbacks (registering them has no effect of
  its own), the H264 media line with payload type 96 and the fixed SSRC, the track and
  the start of local negotiation. An exception leaves at the call that throws.
\<close>

definition cpc_construct :: "build_outcome \<Rightarrow> world \<Rightarrow> (exn + nat \<times> track_h) \<times> world" where
  "cpc_construct bo w =
     (case bo of
        NewPcThrows m \<Rightarrow> (Inl (Exn m), w)
      | _ \<Rightarrow>
         (let newPc = next_pc w;
              w1 = emit [NewPc newPc] (w\<lparr>next_pc := Suc newPc\<rparr>) in
          case bo of
            AddTrackThrows m \<Rightarrow> (Inl (Exn m), w1)
          | _ \<Rightarrow>
             (let newTrack = TrackOf newPc;
                  w2 = emit [AddTrack newPc 96 ssrc] w1 in
              case bo of
                SetLocalThrows m \<Rightarrow> (Inl (Exn m), w2)
              | _ \<Rightarrow> (Inr (newPc, newTrack), emit [SetLocalDescription newPc] w2))))"

text \<open>
  Lines 180 to 186, the block under \<^verbatim>\<open>lock_guard<mutex> lock(pcMutex)\<close>: one atomic
  step, since every other access to \<open>pc\<close> and \<open>track\<close> takes the same mutex.
\<close>

definition cpc_install :: "nat \<Rightarrow> track_h \<Rightarrow> world \<Rightarrow> world" where
  "cpc_install newPc newTrack w =
     (let w1 = (case pc w of None \<Rightarrow> w | Some old \<Rightarrow> emit [PcClose old] w)
      in w1\<lparr>pc := Some newPc, track := Some newTrack,
            published := published w1 @ [newPc]\<rparr>)"

text \<open>Line 187: \<^verbatim>\<open>reconnecting = false\<close>.\<close>

definition cpc_exit :: "world \<Rightarrow> world" where
  "cpc_exit w = w\<lparr>reconnecting := False\<rparr>"

text \<open>
  The whole lambda, run by one thread without interruption. The result is the exception
  that leaves it, if any, and the state at that exit.
\<close>

definition createPeerConnection :: "build_outcome \<Rightarrow> world \<Rightarrow> exn option \<times> world" where
  "createPeerConnection bo w =
     (case cpc_construct bo (cpc_enter w) of
        (Inl e, w') \<Rightarrow> (Some e, w')
      | (Inr (newPc, newTrack), w') \<Rightarrow> (None, cpc_exit (cpc_install newPc newTrack w')))"

section \<open>Packet Source Adapter: the relay loop\<close>

text \<open>
  What one iteration of the relay loop gets from outside: the result of \<^verbatim>\<open>recv\<close>
  (\<open>Interrupted\<close> is a negative return with \<^verbatim>\<open>errno == EINTR\<close>, \<open>RecvFailed\<close> any other
  negative return, with the \<^verbatim>\<open>strerror\<close> text), the clock reading, the answer of
  \<^verbatim>\<open>isOpen()\<close>, whether \<^verbatim>\<open>send\<close> throws, and the outcome of the rebuild that a
  throwing send starts.
\<close>

datatype recv_result = Interrupted | RecvFailed string | Datagram "byte list"

record relay_in =
  r_recv :: recv_result
  r_now :: int
  r_isOpen :: bool
  r_send :: "string option"
  r_build :: build_outcome

text \<open>\<^verbatim>\<open>recv\<close> copies at most \<open>BUFFER_SIZE\<close> bytes of the datagram to the front of the buffer.\<close>

definition recv_into :: "byte list \<Rightarrow> (nat \<Rightarrow> byte) \<Rightarrow> (nat \<Rightarrow> byte)" where
  "recv_into d buf = (\<lambda>i. if i < min (length d) BUFFER_SIZE then d ! i else buf i)"

text \<open>
  Lines 231 to 262: one iteration up to the call of \<^verbatim>\<open>createPeerConnection\<close> in the
  catch handler. The boolean says whether that call is due.
\<close>

definition relay_front :: "relay_in \<Rightarrow> world \<Rightarrow> bool \<times> world" where
  "relay_front inp w =
     (case r_recv inp of
        Interrupted \<Rightarrow> (False, w)
      | RecvFailed msg \<Rightarrow> (False, emit [Cerr (''recv failed: '' @ msg), Sleep 200] w)
      | Datagram d \<Rightarrow>
         (let len = min (length d) BUFFER_SIZE;
              w1 = w\<lparr>buffer := recv_into d (buffer w)\<rparr> in
          case track w1 of
            None \<Rightarrow> (False, w1)
          | Some currentTrack \<Rightarrow>
             if len < RtpHeader_size \<or> \<not> r_isOpen inp then (False, w1)
             else
               (let w2 = w1\<lparr>lastPacketMs := r_now inp, idle := False\<rparr>;
                    w3 = w2\<lparr>buffer := setSsrc ssrc (buffer w2)\<rparr>;
                    w4 = emit [TrackSend currentTrack (map (buffer w3) [0..<len])] w3 in
                case r_send inp of
                  None \<Rightarrow> (False, w4)
                | Some what \<Rightarrow>
                    (True, (emit [Cerr (''Track send error: '' @ what)] w4)
                             \<lparr>pendingOffer := []\<rparr>))))"

definition relay_iter :: "relay_in \<Rightarrow> world \<Rightarrow> exn option \<times> world" where
  "relay_iter inp w =
     (case relay_front inp w of
        (True, w') \<Rightarrow> createPeerConnection (r_build inp) w'
      | (False, w') \<Rightarrow> (None, w'))"

text \<open>
  The loop \<^verbatim>\<open>while (true)\<close> over the datagrams that arrive; it is left only by an
  exception of \<^verbatim>\<open>createPeerConnection\<close>. With the inputs used up the loop is blocked
  in \<^verbatim>\<open>recv\<close>.
\<close>

fun relay_loop :: "relay_in list \<Rightarrow> world \<Rightarrow> exn option \<times> world" where
  "relay_loop [] w = (None, w)"
| "relay_loop (inp # inps) w =
     (case relay_iter inp w of
        (Some e, w') \<Rightarrow> (Some e, w')
      | (None, w') \<Rightarrow> relay_loop inps w')"

section \<open>Liveness Watchdog\<close>

text \<open>
  One pass of the watchdog loop reads the shared variables at separate moments, and the
  other threads run between them. Its parts, in order:
  \<^item> \<open>watchdog_sleep\<close>, lines 211 and 212, the guarded sleep;
  \<^item> the clock reading \<open>nowMs\<close> of line 213 and the load of line 216, whose value
    \<open>lastPacketMs w\<close> is kept in the local \<open>lastMs\<close>;
  \<^item> \<open>watchdog_test\<close>, line 217, on the two locals and the idle flag as it is when the
    test loads it;
  \<^item> \<open>watchdog_mark\<close>, lines 218 and 219, and \<open>watchdog_clear\<close>, line 220, when the test
    holds; after them \<^verbatim>\<open>createPeerConnection\<close> is called.
\<close>

definition watchdog_sleep :: "world \<Rightarrow> world" where
  "watchdog_sleep w = (if \<not> wsOpen w \<or> reconnecting w then emit [Sleep 200] w else w)"

definition watchdog_test :: "int \<Rightarrow> int \<Rightarrow> world \<Rightarrow> bool" where
  "watchdog_test nowMs lastMs w =
     (lastMs \<noteq> 0 \<and> nowMs - lastMs > idleThresholdMs \<and> \<not> idle w)"

definition watchdog_mark :: "world \<Rightarrow> world" where
  "watchdog_mark w = (emit [Cout ''RTP idle detected, renegotiating...''] w)\<lparr>idle := True\<rparr>"

definition watchdog_clear :: "world \<Rightarrow> world" where
  "watchdog_clear w = w\<lparr>pendingOffer := []\<rparr>"

text \<open>
  Lines 211 to 220 of a pass that no other thread interrupts. The boolean says whether
  the call of \<^verbatim>\<open>createPeerConnection\<close> is due.
\<close>

definition watchdog_front :: "int \<Rightarrow> world \<Rightarrow> bool \<times> world" where
  "watchdog_front nowMs w =
     (let w1 = watchdog_sleep w;
          lastMs = lastPacketMs w1 in
      if watchdog_test nowMs lastMs w1 then (True, watchdog_clear (watchdog_mark w1))
      else (False, w1))"

text \<open>
  One uninterrupted pass: lines 211 to 223. An exception of the rebuild leaves the
  thread's function.
\<close>

definition watchdog_tick :: "int \<times> build_outcome \<Rightarrow> world \<Rightarrow> exn option \<times> world" where
  "watchdog_tick tk w =
     (case watchdog_front (fst tk) w of
        (True, w1) \<Rightarrow>
          (case createPeerConnection (snd tk) w1 of
             (Some e, w2) \<Rightarrow> (Some e, w2)
           | (None, w2) \<Rightarrow> (None, emit [Sleep 200] w2))
      | (False, w1) \<Rightarrow> (None, emit [Sleep 200] w1))"


section \<open>Signaling Bridge\<close>

subsection \<open>The JSON values of the signaling payloads\<close>

text \<open>
  \<^verbatim>\<open>nlohmann::json\<close> is a third-party library. Its values are the datatype \<open>json\<close>
  (a number is kept as its text, an object as its members in the order given); its
  parser and its serialiser are parameters \<open>parse\<close> and \<open>dump\<close> of the functions that
  call them, \<open>parse s = None\<close> standing for the discarded value that
  \<^verbatim>\<open>json::parse(s, nullptr, false)\<close> returns on malformed input.
\<close>

datatype json =
    JNull
  | JBool bool
  | JNumber string
  | JString string
  | JArray "json list"
  | JObject "(string \<times> json) list"

text \<open>\<^verbatim>\<open>find(key)\<close>: the member of an object, \<^verbatim>\<open>end()\<close> on a missing key or any other value.\<close>

fun json_find :: "json \<Rightarrow> string \<Rightarrow> json option" where
  "json_find (JObject members) key = map_of members key"
| "json_find _ key = None"

fun type_name :: "json \<Rightarrow> string" where
  "type_name JNull = ''null''"
| "type_name (JBool _) = ''boolean''"
| "type_name (JNumber _) = ''number''"
| "type_name (JString _) = ''string''"
| "type_name (JArray _) = ''array''"
| "type_name (JObject _) = ''object''"

text \<open>\<^verbatim>\<open>get<std::string>()\<close> throws a type error on a value that is not a string.\<close>

fun get_string :: "json \<Rightarrow> exn + string" where
  "get_string (JString s) = Inr s"
| "get_string j =
     Inl (Exn (''[json.exception.type_error.302] type must be string, but is '' @ type_name j))"

subsection \<open>Channel callbacks\<close>

definition onOpen :: "world \<Rightarrow> world" where
  "onOpen w = emit [Cout ''WebSocket connected, signaling ready''] (w\<lparr>wsOpen := True\<rparr>)"

definition onError :: "string \<Rightarrow> world \<Rightarrow> world" where
  "onError error w = emit [Cout (''WebSocket failed: '' @ error)] w"

definition onClosed :: "world \<Rightarrow> world" where
  "onClosed w = emit [Cout ''WebSocket closed''] (w\<lparr>wsOpen := False\<rparr>)"

text \<open>
  Lines 126 to 128 and 164 to 168: the offer message is built from \<open>remoteId\<close> and
  \<open>pendingOffer\<close> and handed to \<^verbatim>\<open>ws->send\<close>, which may throw (\<open>thr\<close>).
\<close>

definition send_offer :: "(json \<Rightarrow> string) \<Rightarrow> string option \<Rightarrow> world \<Rightarrow> exn option \<times> world" where
  "send_offer dump thr w =
     (let offerMessage = JObject [(''id'', JString (remoteId w)), (''type'', JString ''offer''),
                                  (''sdp'', JString (pendingOffer w))];
          w1 = emit [WsSend (dump offerMessage)] w in
      case thr of
        Some what \<Rightarrow> (Some (Exn what), w1)
      | None \<Rightarrow> (None, emit [Cout (''Sent offer to '' @ remoteId w)] w1))"

subsection \<open>Inbound messages\<close>

datatype message_variant = Binary "byte list" | Text string

text \<open>
  How applying an answer ends: the constructor of \<^verbatim>\<open>rtc::Description\<close> or
  \<^verbatim>\<open>setRemoteDescription\<close> may throw.
\<close>

datatype apply_outcome = ApplyOk | DescriptionThrows string | SetRemoteThrows string

record msg_in =
  m_data :: message_variant
  m_apply :: apply_outcome
  m_send :: "string option"

text \<open>Lines 97 to 131. An exception leaves the callback into the library that called it.\<close>

definition onMessage ::
  "(string \<Rightarrow> json option) \<Rightarrow> (json \<Rightarrow> string) \<Rightarrow> msg_in \<Rightarrow> world \<Rightarrow> exn option \<times> world" where
  "onMessage parse dump inp w =
     (case m_data inp of
        Binary _ \<Rightarrow> (None, w)
      | Text s \<Rightarrow>
         (case parse s of
            None \<Rightarrow> (None, w)
          | Some message \<Rightarrow>
             (case json_find message ''type'' of
                None \<Rightarrow> (None, w)
              | Some typeIt \<Rightarrow>
                 (case get_string typeIt of
                    Inl e \<Rightarrow> (Some e, w)
                  | Inr type \<Rightarrow>
                     if type = ''answer'' then
                       (case json_find message ''sdp'' of
                          None \<Rightarrow> (None, w)
                        | Some sdpIt \<Rightarrow>
                           (case pc w of
                              None \<Rightarrow> (None, w)
                            | Some currentPc \<Rightarrow>
                               (case get_string sdpIt of
                                  Inl e \<Rightarrow> (Some e, w)
                                | Inr sdp \<Rightarrow>
                                   (case m_apply inp of
                                      DescriptionThrows what \<Rightarrow> (Some (Exn what), w)
                                    | SetRemoteThrows what \<Rightarrow>
                                        (Some (Exn what),
                                         emit [SetRemoteDescription currentPc sdp] w)
                                    | ApplyOk \<Rightarrow>
                                        (None,
                                         emit [SetRemoteDescription currentPc sdp,
                                               Cout ''Applied remote answer''] w)))))
                     else if type = ''request'' \<or> type = ''ready'' then
                       (if pendingOffer w \<noteq> [] \<and> wsOpen w then send_offer dump (m_send inp) w
                        else (None, w))
                     else (None, w)))))"

subsection \<open>The negotiation-complete callback\<close>

datatype gathering_state = New | InProgress | Complete

text \<open>
  What the callback of lines 154 to 171 gets: the new gathering state, the text that
  printing it gives, the text of the session's local description, and whether
  \<^verbatim>\<open>ws->send\<close> throws.
\<close>

record gather_in =
  g_state :: gathering_state
  g_shown :: string
  g_description :: string
  g_send :: "string option"

definition onGatheringStateChange ::
  "(json \<Rightarrow> string) \<Rightarrow> gather_in \<Rightarrow> world \<Rightarrow> exn option \<times> world" where
  "onGatheringStateChange dump inp w =
     (let w1 = emit [Cout (''Gathering State: '' @ g_shown inp)] w in
      if g_state inp = Complete then
        (let w2 = (emit [Cout ''Local description ready''] w1)
                    \<lparr>pendingOffer := g_description inp\<rparr> in
         if wsOpen w2 then send_offer dump (g_send inp) w2 else (None, w2))
      else (None, w1))"

section \<open>The process: arguments, start-up, top-level handler\<close>

record options =
  opt_signalingHost :: string
  opt_signalingPort :: "16 word"
  opt_localId :: string
  opt_remoteId :: string

definition default_options :: options where
  "default_options =
     \<lparr>opt_signalingHost = ''127.0.0.1'', opt_signalingPort = 8000,
      opt_localId = ''sender'', opt_remoteId = ''browser''\<rparr>"

text \<open>
  \<^verbatim>\<open>std::stoi\<close>: white space, an optional sign, then decimal digits; what follows the
  digits is ignored. It throws when there is no digit or the value does not fit an
  \<^verbatim>\<open>int\<close>.
\<close>

definition isspace :: "char \<Rightarrow> bool" where
  "isspace c = (c \<in> set [CHR '' '', CHR 0x09, CHR 0x0A, CHR 0x0B, CHR 0x0C, CHR 0x0D])"

definition isdigit :: "char \<Rightarrow> bool" where
  "isdigit c = (48 \<le> (of_char c :: nat) \<and> (of_char c :: nat) \<le> 57)"

definition decimal :: "string \<Rightarrow> int" where
  "decimal ds = foldl (\<lambda>acc c. 10 * acc + (int (of_char c) - 48)) 0 ds"

definition stoi :: "string \<Rightarrow> exn + int" where
  "stoi s =
     (let s1 = dropWhile isspace s;
          negative = (case s1 of c # _ \<Rightarrow> c = CHR ''-'' | [] \<Rightarrow> False);
          s2 = (case s1 of c # r \<Rightarrow> if c = CHR ''-'' \<or> c = CHR ''+'' then r else s1 | [] \<Rightarrow> s1);
          ds = takeWhile isdigit s2;
          v = (if negative then - decimal ds else decimal ds) in
      if ds = [] then Inl (Exn ''stoi'')
      else if v < - (2 ^ 31) \<or> 2 ^ 31 - 1 < v then Inl (Exn ''stoi'')
      else Inr v)"

text \<open>\<^verbatim>\<open>std::to_string\<close> of a non-negative number.\<close>

fun to_string :: "nat \<Rightarrow> string" where
  "to_string n =
     (if n < 10 then [''0123456789'' ! n]
      else to_string (n div 10) @ [''0123456789'' ! (n mod 10)])"

declare to_string.simps [simp del]

datatype 'a flow = Continue 'a | Return int | Throw exn

definition usage :: string where
  "usage = ''usage: media-sender [--signaling-ip IP] [--signaling-port PORT] '' @
           ''[--local-id ID] [--remote-id ID]'' @ [CHR 0x0A]"

text \<open>An argument that is no option with a value: \<^verbatim>\<open>--help\<close>, or unknown.\<close>

definition other_argument :: "string \<Rightarrow> effect list \<times> options flow" where
  "other_argument arg =
     (if arg = ''--help'' then ([Cout usage], Return 0)
      else ([Cerr (''Unknown argument: '' @ arg)], Return 1))"

text \<open>
  Lines 52 to 70, on \<^verbatim>\<open>argv[1]\<close> onwards. The test \<^verbatim>\<open>i + 1 < argc\<close> holds when
  another argument follows; an option with a value takes it and the loop goes on behind
  it.
\<close>

fun arg_loop :: "string list \<Rightarrow> options \<Rightarrow> effect list \<times> options flow" where
  "arg_loop [] opts = ([], Continue opts)"
| "arg_loop [arg] opts = other_argument arg"
| "arg_loop (arg # v # rest) opts =
     (if arg = ''--signaling-ip'' then arg_loop rest (opts\<lparr>opt_signalingHost := v\<rparr>)
      else if arg = ''--signaling-port'' then
        (case stoi v of
           Inl e \<Rightarrow> ([], Throw e)
         | Inr n \<Rightarrow> arg_loop rest (opts\<lparr>opt_signalingPort := word_of_int n\<rparr>))
      else if arg = ''--local-id'' then arg_loop rest (opts\<lparr>opt_localId := v\<rparr>)
      else if arg = ''--remote-id'' then arg_loop rest (opts\<lparr>opt_remoteId := v\<rparr>)
      else other_argument arg)"

text \<open>The captured variables as lines 73 to 80 initialise them; the buffer starts with any content.\<close>

definition world0 :: "string \<Rightarrow> (nat \<Rightarrow> byte) \<Rightarrow> effect list \<Rightarrow> world" where
  "world0 rid buf tr =
     \<lparr>remoteId = rid, wsOpen = False, pendingOffer = [], pc = None, track = None,
      idle = True, lastPacketMs = 0, reconnecting = False, buffer = buf, next_pc = 0,
      trace = tr, rebuilds = 0, published = []\<rparr>"

text \<open>
  Lines 139 to 143. While \<^verbatim>\<open>main\<close> polls, the channel's callbacks run on the library's
  thread; \<open>Check c\<close> is one evaluation of the loop's tests, \<open>c\<close> the answer of
  \<^verbatim>\<open>isClosed()\<close>. The loop ends with the channel open or by throwing; \<open>Polling\<close> is the
  loop still going round when the events given are used up.
\<close>

datatype ws_event = CbOpen | CbError string | CbClosed | Check bool

datatype waited = Polling | Connected | Failed exn

fun wait_open :: "ws_event list \<Rightarrow> world \<Rightarrow> waited \<times> world" where
  "wait_open [] w = (Polling, w)"
| "wait_open (CbOpen # evs) w = wait_open evs (onOpen w)"
| "wait_open (CbError error # evs) w = wait_open evs (onError error w)"
| "wait_open (CbClosed # evs) w = wait_open evs (onClosed w)"
| "wait_open (Check isClosed # evs) w =
     (if wsOpen w then (Connected, w)
      else if isClosed then (Failed (Exn ''WebSocket closed before connection''), w)
      else wait_open evs (emit [Sleep 100] w))"

text \<open>
  What a run of \<^verbatim>\<open>main\<close> gets from outside: whether \<^verbatim>\<open>ws->open\<close> throws, the
  channel's events while \<^verbatim>\<open>main\<close> waits, whether \<^verbatim>\<open>bind\<close> succeeds, the outcome
  of the first session build, the initial content of the receive buffer and the
  inputs of the relay loop.
\<close>

record main_env =
  e_connect :: "string option"
  e_ws :: "ws_event list"
  e_bind :: bool
  e_build :: build_outcome
  e_buffer :: "nat \<Rightarrow> byte"
  e_datagrams :: "relay_in list"

text \<open>
  How a run of \<^verbatim>\<open>main\<close> ends: with an exit status, or not at all on the inputs given
  (\<open>Running\<close>: still polling, or blocked in \<^verbatim>\<open>recv\<close>).
\<close>

datatype outcome = Exit int | Running

text \<open>
  Lines 267 to 270: the handler prints the message; control then reaches the closing
  brace of \<^verbatim>\<open>main\<close>, which in C++ returns 0.
\<close>

definition top_level_catch :: "exn \<Rightarrow> effect list \<Rightarrow> outcome \<times> effect list" where
  "top_level_catch e tr = (case e of Exn what \<Rightarrow> (Exit 0, tr @ [Cerr (''Error: '' @ what)]))"

text \<open>
  \<^verbatim>\<open>main\<close> on \<^verbatim>\<open>argv[1]\<close> onwards: the exit status, if any, and everything the
  process did. Of the steady state this is the main thread's own loop; the watchdog
  thread and the callbacks that run beside it are the subject of \<open>step\<close> below.
\<close>

definition main :: "string list \<Rightarrow> main_env \<Rightarrow> outcome \<times> effect list" where
  "main args env =
     (case arg_loop args default_options of
        (tr, Return status) \<Rightarrow> (Exit status, tr)
      | (tr, Throw e) \<Rightarrow> top_level_catch e tr
      | (tr, Continue opts) \<Rightarrow>
         (let url = ''ws://'' @ opt_signalingHost opts @ '':'' @
                    to_string (unat (opt_signalingPort opts)) @ ''/'' @ opt_localId opts;
              w0 = emit [Cout (''WebSocket URL is '' @ url), WsConnect url]
                     (world0 (opt_remoteId opts) (e_buffer env) tr) in
          case e_connect env of
            Some what \<Rightarrow> top_level_catch (Exn what) (trace w0)
          | None \<Rightarrow>
             (case wait_open (e_ws env)
                     (emit [Cout ''Waiting for signaling to be connected...''] w0) of
                (Polling, w2) \<Rightarrow> (Running, trace w2)
              | (Failed e, w2) \<Rightarrow> top_level_catch e (trace w2)
              | (Connected, w2) \<Rightarrow>
                 if \<not> e_bind env then
                   top_level_catch (Exn ''Failed to bind UDP socket on 127.0.0.1:6000'')
                     (trace w2)
                 else
                   (case createPeerConnection (e_build env) w2 of
                      (Some e, w3) \<Rightarrow> top_level_catch e (trace w3)
                    | (None, w3) \<Rightarrow>
                       (let w4 = emit [Cout ''RTP video stream expected on localhost:6000'',
                                       Cout ''Waiting for answer via signaling...''] w3 in
                        case relay_loop (e_datagrams env) w4 of
                          (Some e, w5) \<Rightarrow> top_level_catch e (trace w5)
                        | (None, w5) \<Rightarrow> (Running, trace w5))))))"

section \<open>The threads together\<close>

text \<open>
  Two threads call \<^verbatim>\<open>createPeerConnection\<close>: the main thread (at start-up and from
  the relay loop's catch handler) and the watchdog thread. A configuration is the
  captured variables and, for each of the two, where it stands. In a pass of the
  watchdog: \<open>Guarded\<close> after the guarded sleep, \<open>Loaded nowMs lastMs\<close> after line 216 with
  the two locals, \<open>Fired\<close> when the test of line 217 has held, \<open>Marked\<close> after line 219.
  In \<^verbatim>\<open>createPeerConnection\<close>: \<open>Calling\<close> before line 147, \<open>Entered\<close> before line 148,
  \<open>Constructed\<close> before the locked block with the locals \<^verbatim>\<open>newPc\<close> and \<^verbatim>\<open>newTrack\<close>,
  \<open>Installed\<close> before line 187, \<open>Thrown\<close> when an exception has left it.
\<close>

datatype thread = MainT | WatchdogT

datatype phase =
    Outside
  | Guarded
  | Loaded int int
  | Fired
  | Marked
  | Calling
  | Entered
  | Constructed nat track_h
  | Installed
  | Thrown exn

record config =
  shared :: world
  phase_of :: "thread \<Rightarrow> phase"

text \<open>
  One step of one thread. The locked block is a single step, which is what the mutex
  provides. Each part of a pass of the watchdog is a step, so that a packet can be
  accepted between the load of line 216 and the test of line 217. A callback and the
  part of a pass of the relay loop before the rebuild are single steps too; that is
  coarser than the program, but these parts only read the Slot. The steps of different
  threads come in any order, and more freely than in the program: the watchdog may run
  before the first session is installed, and the other thread goes on after an
  exception has left \<^verbatim>\<open>createPeerConnection\<close>, where the process in fact ends. What
  holds in every configuration reached here holds in every state of the program.
  \<open>parse\<close> and \<open>dump\<close> are the JSON library.
\<close>

inductive step ::
  "(string \<Rightarrow> json option) \<Rightarrow> (json \<Rightarrow> string) \<Rightarrow> config \<Rightarrow> config \<Rightarrow> bool"
  for parse :: "string \<Rightarrow> json option" and dump :: "json \<Rightarrow> string" where
  relay: "phase_of c MainT = Outside \<Longrightarrow> relay_front inp (shared c) = (fire, w') \<Longrightarrow>
     step parse dump c
       \<lparr>shared = w', phase_of = (phase_of c)(MainT := if fire then Calling else Outside)\<rparr>"
| guard: "phase_of c WatchdogT = Outside \<Longrightarrow>
     step parse dump c
       \<lparr>shared = watchdog_sleep (shared c), phase_of = (phase_of c)(WatchdogT := Guarded)\<rparr>"
| load: "phase_of c WatchdogT = Guarded \<Longrightarrow>
     step parse dump c
       \<lparr>shared = shared c,
        phase_of = (phase_of c)(WatchdogT := Loaded nowMs (lastPacketMs (shared c)))\<rparr>"
| test: "phase_of c WatchdogT = Loaded nowMs lastMs \<Longrightarrow>
     step parse dump c
       \<lparr>shared = (if watchdog_test nowMs lastMs (shared c) then shared c
                  else emit [Sleep 200] (shared c)),
        phase_of = (phase_of c)
          (WatchdogT := if watchdog_test nowMs lastMs (shared c) then Fired else Outside)\<rparr>"
| mark: "phase_of c WatchdogT = Fired \<Longrightarrow>
     step parse dump c
       \<lparr>shared = watchdog_mark (shared c), phase_of = (phase_of c)(WatchdogT := Marked)\<rparr>"
| clear: "phase_of c WatchdogT = Marked \<Longrightarrow>
     step parse dump c
       \<lparr>shared = watchdog_clear (shared c), phase_of = (phase_of c)(WatchdogT := Calling)\<rparr>"
| enter: "phase_of c t = Calling \<Longrightarrow>
     step parse dump c \<lparr>shared = cpc_enter (shared c), phase_of = (phase_of c)(t := Entered)\<rparr>"
| construct: "phase_of c t = Entered \<Longrightarrow> cpc_construct bo (shared c) = (Inr (newPc, newTrack), w') \<Longrightarrow>
     step parse dump c \<lparr>shared = w', phase_of = (phase_of c)(t := Constructed newPc newTrack)\<rparr>"
| throw: "phase_of c t = Entered \<Longrightarrow> cpc_construct bo (shared c) = (Inl e, w') \<Longrightarrow>
     step parse dump c \<lparr>shared = w', phase_of = (phase_of c)(t := Thrown e)\<rparr>"
| install: "phase_of c t = Constructed newPc newTrack \<Longrightarrow>
     step parse dump c
       \<lparr>shared = cpc_install newPc newTrack (shared c), phase_of = (phase_of c)(t := Installed)\<rparr>"
| leave: "phase_of c t = Installed \<Longrightarrow>
     step parse dump c
       \<lparr>shared = (if t = WatchdogT then emit [Sleep 200] (cpc_exit (shared c))
                  else cpc_exit (shared c)),
        phase_of = (phase_of c)(t := Outside)\<rparr>"
| message: "onMessage parse dump inp (shared c) = (r, w') \<Longrightarrow>
     step parse dump c (c\<lparr>shared := w'\<rparr>)"
| gathering: "onGatheringStateChange dump ginp (shared c) = (r, w') \<Longrightarrow>
     step parse dump c (c\<lparr>shared := w'\<rparr>)"
| opened: "step parse dump c (c\<lparr>shared := onOpen (shared c)\<rparr>)"
| failed: "step parse dump c (c\<lparr>shared := onError error (shared c)\<rparr>)"
| closed: "step parse dump c (c\<lparr>shared := onClosed (shared c)\<rparr>)"

text \<open>
  The configurations a run passes through. It starts where \<^verbatim>\<open>main\<close> is about to make
  its first call of \<^verbatim>\<open>createPeerConnection\<close> (line 203): no session has been created
  yet and the Slot is empty.
\<close>

definition at_first_call :: "config \<Rightarrow> bool" where
  "at_first_call c =
     (pc (shared c) = None \<and> track (shared c) = None \<and> next_pc (shared c) = 0 \<and>
      published (shared c) = [] \<and> closed (shared c) = {} \<and>
      phase_of c MainT = Calling \<and> phase_of c WatchdogT = Outside)"

inductive reachable ::
  "(string \<Rightarrow> json option) \<Rightarrow> (json \<Rightarrow> string) \<Rightarrow> config \<Rightarrow> bool"
  for parse :: "string \<Rightarrow> json option" and dump :: "json \<Rightarrow> string" where
  reach_start: "at_first_call c \<Longrightarrow> reachable parse dump c"
| reach_step: "reachable parse dump c \<Longrightarrow> step parse dump c c' \<Longrightarrow> reachable parse dump c'"

section \<open>Schedules\<close>

text \<open>
  The step relation as a function: \<open>perform\<close> makes the step that an action names,
  when the thread stands where the step starts, and \<open>perform_all\<close> makes a list of them
  in order. Every configuration they produce from a reachable one is reachable
  (\<open>perform_all_reachable\<close> below).
\<close>

datatype action =
    DoRelay relay_in
  | DoGuard
  | DoLoad int
  | DoTest
  | DoMark
  | DoClear
  | DoEnter thread
  | DoConstruct thread build_outcome
  | DoInstall thread
  | DoLeave thread
  | DoMessage msg_in
  | DoGathering gather_in
  | DoOpened
  | DoFailed string
  | DoClosed

fun perform ::
  "(string \<Rightarrow> json option) \<Rightarrow> (json \<Rightarrow> string) \<Rightarrow> action \<Rightarrow> config \<Rightarrow> config option" where
  "perform parse dump (DoRelay inp) c =
     (if phase_of c MainT = Outside then
        (case relay_front inp (shared c) of
           (fire, w') \<Rightarrow>
             Some \<lparr>shared = w',
                   phase_of = (phase_of c)(MainT := if fire then Calling else Outside)\<rparr>)
      else None)"
| "perform parse dump DoGuard c =
     (if phase_of c WatchdogT = Outside then
        Some \<lparr>shared = watchdog_sleep (shared c),
              phase_of = (phase_of c)(WatchdogT := Guarded)\<rparr>
      else None)"
| "perform parse dump (DoLoad nowMs) c =
     (if phase_of c WatchdogT = Guarded then
        Some \<lparr>shared = shared c,
              phase_of = (phase_of c)(WatchdogT := Loaded nowMs (lastPacketMs (shared c)))\<rparr>
      else None)"
| "perform parse dump DoTest c =
     (case phase_of c WatchdogT of
        Loaded nowMs lastMs \<Rightarrow>
          Some \<lparr>shared = (if watchdog_test nowMs lastMs (shared c) then shared c
                          else emit [Sleep 200] (shared c)),
                phase_of = (phase_of c)
                  (WatchdogT := if watchdog_test nowMs lastMs (shared c) then Fired
                                else Outside)\<rparr>
      | _ \<Rightarrow> None)"
| "perform parse dump DoMark c =
     (if phase_of c WatchdogT = Fired then
        Some \<lparr>shared = watchdog_mark (shared c),
              phase_of = (phase_of c)(WatchdogT := Marked)\<rparr>
      else None)"
| "perform parse dump DoClear c =
     (if phase_of c WatchdogT = Marked then
        Some \<lparr>shared = watchdog_clear (shared c),
              phase_of = (phase_of c)(WatchdogT := Calling)\<rparr>
      else None)"
| "perform parse dump (DoEnter t) c =
     (if phase_of c t = Calling then
        Some \<lparr>shared = cpc_enter (shared c), phase_of = (phase_of c)(t := Entered)\<rparr>
      else None)"
| "perform parse dump (DoConstruct t bo) c =
     (if phase_of c t = Entered then
        (case cpc_construct bo (shared c) of
           (Inr (newPc, newTrack), w') \<Rightarrow>
             Some \<lparr>shared = w', phase_of = (phase_of c)(t := Constructed newPc newTrack)\<rparr>
         | (Inl e, w') \<Rightarrow>
             Some \<lparr>shared = w', phase_of = (phase_of c)(t := Thrown e)\<rparr>)
      else None)"
| "perform parse dump (DoInstall t) c =
     (case phase_of c t of
        Constructed newPc newTrack \<Rightarrow>
          Some \<lparr>shared = cpc_install newPc newTrack (shared c),
                phase_of = (phase_of c)(t := Installed)\<rparr>
      | _ \<Rightarrow> None)"
| "perform parse dump (DoLeave t) c =
     (if phase_of c t = Installed then
        Some \<lparr>shared = (if t = WatchdogT then emit [Sleep 200] (cpc_exit (shared c))
                        else cpc_exit (shared c)),
              phase_of = (phase_of c)(t := Outside)\<rparr>
      else None)"
| "perform parse dump (DoMessage inp) c =
     Some (c\<lparr>shared := snd (onMessage parse dump inp (shared c))\<rparr>)"
| "perform parse dump (DoGathering ginp) c =
     Some (c\<lparr>shared := snd (onGatheringStateChange dump ginp (shared c))\<rparr>)"
| "perform parse dump DoOpened c = Some (c\<lparr>shared := onOpen (shared c)\<rparr>)"
| "perform parse dump (DoFailed error) c = Some (c\<lparr>shared := onError error (shared c)\<rparr>)"
| "perform parse dump DoClosed c = Some (c\<lparr>shared := onClosed (shared c)\<rparr>)"

fun perform_all ::
  "(string \<Rightarrow> json option) \<Rightarrow> (json \<Rightarrow> string) \<Rightarrow> action list \<Rightarrow> config \<Rightarrow> config option" where
  "perform_all parse dump [] c = Some c"
| "perform_all parse dump (a # as) c =
     (case perform parse dump a c of
        None \<Rightarrow> None
      | Some c' \<Rightarrow> perform_all parse dump as c')"

section \<open>The Session Slot invariant\<close>

text \<open>
  What can be seen of the Slot in a state: of the sessions it has held, only the one it
  holds now has not been closed; and it is either empty, nothing having been published
  yet, or it holds the session published last, not closed, together with that session's
  own track.
\<close>

definition slot_invariant :: "world \<Rightarrow> bool" where
  "slot_invariant w =
     ((\<forall>p \<in> set (published w). p \<notin> closed w \<longrightarrow> pc w = Some p) \<and>
      (case pc w of
         None \<Rightarrow> track w = None \<and> published w = []
       | Some p \<Rightarrow> track w = Some (TrackOf p) \<and> p \<notin> closed w \<and>
                   published w \<noteq> [] \<and> last (published w) = p))"

text \<open>
  The invariant of a configuration that the induction over runs needs: besides the
  above, only published sessions are ever closed, every published session has been
  allocated, and a pair that a thread has built and not yet installed is fresh.
\<close>

definition build_invariant :: "config \<Rightarrow> bool" where
  "build_invariant c =
     (slot_invariant (shared c) \<and>
      closed (shared c) \<subseteq> set (published (shared c)) \<and>
      (\<forall>p \<in> set (published (shared c)). p < next_pc (shared c)) \<and>
      (\<forall>t p tr. phase_of c t = Constructed p tr \<longrightarrow>
         p < next_pc (shared c) \<and> tr = TrackOf p \<and> p \<notin> set (published (shared c))) \<and>
      (\<forall>p tr q tr'. phase_of c MainT = Constructed p tr \<longrightarrow>
         phase_of c WatchdogT = Constructed q tr' \<longrightarrow> p \<noteq> q))"

text \<open>Two states with the same Slot, allocator and closed sessions.\<close>

definition same_slot :: "world \<Rightarrow> world \<Rightarrow> bool" where
  "same_slot w w' =
     (pc w' = pc w \<and> track w' = track w \<and> next_pc w' = next_pc w \<and>
      published w' = published w \<and> closed w' = closed w)"

section \<open>Sample states and inputs\<close>

text \<open>
  The state after the channel has opened and the first session has been built, a
  datagram arriving on an open track, and an RTP packet of 15 bytes whose SSRC is
  \<open>0xDEADBEEF\<close>.
\<close>

definition live_world :: world where
  "live_world = snd (createPeerConnection BuildOk (onOpen (world0 ''browser'' (\<lambda>_. 0) [])))"

definition datagram_in :: "byte list \<Rightarrow> relay_in" where
  "datagram_in d =
     \<lparr>r_recv = Datagram d, r_now = 5000, r_isOpen = True, r_send = None, r_build = BuildOk\<rparr>"

definition rtp_packet :: "byte list" where
  "rtp_packet = [128, 96, 0, 1, 0, 0, 0, 10, 222, 173, 190, 239, 1, 2, 3]"

text \<open>
  The state after media has stopped for four seconds with an offer pending, the channel
  open (\<open>quiet_world\<close>) or closed (\<open>stale_world\<close>).
\<close>

definition quiet_world :: world where
  "quiet_world = live_world\<lparr>lastPacketMs := 1000, idle := False, pendingOffer := ''v=0''\<rparr>"

definition stale_world :: world where
  "stale_world = quiet_world\<lparr>wsOpen := False\<rparr>"

text \<open>
  A stand-in for the JSON library on three payloads, a serialiser that writes members as
  \<open>key=value;\<close>, a text message, and the live state with an offer pending.
\<close>

definition sample_parse :: "string \<Rightarrow> json option" where
  "sample_parse s =
     (if s = ''ready'' then Some (JObject [(''type'', JString ''ready'')])
      else if s = ''answer'' then Some (JObject [(''type'', JString ''answer'')])
      else if s = ''empty'' then Some (JObject [])
      else None)"

fun sample_dump :: "json \<Rightarrow> string" where
  "sample_dump (JString s) = s"
| "sample_dump (JObject members) =
     concat (map (\<lambda>(k, v). k @ ''='' @ sample_dump v @ '';'') members)"
| "sample_dump j = type_name j"

definition text_in :: "string \<Rightarrow> msg_in" where
  "text_in s = \<lparr>m_data = Text s, m_apply = ApplyOk, m_send = None\<rparr>"

definition offered_world :: world where
  "offered_world = live_world\<lparr>pendingOffer := ''v=0''\<rparr>"

text \<open>
  Two start-ups that fail: the channel opens and the UDP port is taken; the channel is
  refused and closes.
\<close>

definition bind_fails :: main_env where
  "bind_fails =
     \<lparr>e_connect = None, e_ws = [Check False, CbOpen, Check False], e_bind = False,
      e_build = BuildOk,
      e_buffer = (\<lambda>_. 0), e_datagrams = []\<rparr>"

definition channel_closes :: main_env where
  "channel_closes =
     \<lparr>e_connect = None, e_ws = [Check False, CbError ''refused'', CbClosed, Check True],
      e_bind = True, e_build = BuildOk, e_buffer = (\<lambda>_. 0), e_datagrams = []\<rparr>"

text \<open>
  A run in which two rebuilds overlap: after the first session is up, a packet is
  relayed and its send throws, the watchdog then finds the stream idle, and both
  threads build a session before either installs its own.
\<close>

definition first_call :: config where
  "first_call =
     \<lparr>shared = onOpen (world0 ''browser'' (\<lambda>_. 0) []),
      phase_of = (\<lambda>_. Outside)(MainT := Calling)\<rparr>"

definition overlapping_rebuilds :: "action list" where
  "overlapping_rebuilds =
     [DoEnter MainT, DoConstruct MainT BuildOk, DoInstall MainT, DoLeave MainT,
      DoRelay ((datagram_in rtp_packet)\<lparr>r_send := Some ''Track is closed''\<rparr>),
      DoGuard, DoLoad 9000, DoTest, DoMark, DoClear,
      DoEnter WatchdogT, DoEnter MainT,
      DoConstruct WatchdogT BuildOk, DoConstruct MainT BuildOk,
      DoInstall MainT, DoInstall WatchdogT,
      DoLeave MainT, DoLeave WatchdogT]"







section \<open>Properties\<close>

subsection \<open>Traces and the session factory\<close>

lemma track_sends_append: "track_sends (xs @ ys) = track_sends xs @ track_sends ys"
  by (induction xs rule: track_sends.induct) auto

lemma ws_sends_append: "ws_sends (xs @ ys) = ws_sends xs @ ws_sends ys"
  by (induction xs rule: ws_sends.induct) auto

lemmas cpc_defs = createPeerConnection_def cpc_enter_def cpc_construct_def cpc_install_def
  cpc_exit_def emit_def Let_def


lemma createPeerConnection_sends:
  "track_sends (trace (snd (createPeerConnection bo w))) = track_sends (trace w)"
  "ws_sends (trace (snd (createPeerConnection bo w))) = ws_sends (trace w)"
  by (cases bo; simp add: cpc_defs track_sends_append ws_sends_append split: option.split)+

lemma live_world_simps:
  "track live_world = Some (TrackOf 0)" "pc live_world = Some 0" "wsOpen live_world"
  "idle live_world" "lastPacketMs live_world = 0" "pendingOffer live_world = []"
  "rebuilds live_world = 1" "track_sends (trace live_world) = []"
  "ws_sends (trace live_world) = []" "\<not> reconnecting live_world"
  "remoteId live_world = ''browser''" "published live_world = [0]" "next_pc live_world = 1"
  "closed live_world = {}"
  by (simp_all add: live_world_def cpc_defs onOpen_def world0_def closed_def)

subsection \<open>Schedules\<close>

text \<open>What \<open>perform\<close> makes is a step, so a schedule leads from reachable to reachable.\<close>

lemma perform_step:
  assumes "perform parse dump a c = Some c'"
  shows "step parse dump c c'"
proof (cases a)
  case (DoRelay inp)
  with assms have ph: "phase_of c MainT = Outside"
    by (simp split: if_splits)
  with assms DoRelay have "c' = \<lparr>shared = snd (relay_front inp (shared c)),
      phase_of = (phase_of c)
        (MainT := if fst (relay_front inp (shared c)) then Calling else Outside)\<rparr>"
    by (simp add: case_prod_beta)
  with step.relay [OF ph, of inp "fst (relay_front inp (shared c))"
      "snd (relay_front inp (shared c))" parse dump]
  show ?thesis by simp
next
  case DoGuard
  with assms show ?thesis
    by (auto split: if_splits intro: step.guard)
next
  case (DoLoad nowMs)
  with assms show ?thesis
    by (auto split: if_splits intro: step.load)
next
  case DoTest
  with assms obtain nowMs lastMs where at: "phase_of c WatchdogT = Loaded nowMs lastMs"
    by (cases "phase_of c WatchdogT") simp_all
  with assms DoTest step.test [OF at, of parse dump] show ?thesis
    by simp
next
  case DoMark
  with assms show ?thesis
    by (auto split: if_splits intro: step.mark)
next
  case DoClear
  with assms show ?thesis
    by (auto split: if_splits intro: step.clear)
next
  case (DoEnter t)
  with assms show ?thesis
    by (auto split: if_splits intro: step.enter)
next
  case (DoConstruct t bo)
  with assms show ?thesis
    by (auto split: if_splits prod.splits sum.splits intro: step.construct step.throw)
next
  case (DoInstall t)
  with assms show ?thesis
    by (auto split: phase.splits intro: step.install)
next
  case (DoLeave t)
  with assms step.leave [of c t parse dump] show ?thesis
    by (auto split: if_splits)
next
  case (DoMessage inp)
  with assms step.message [of parse dump inp c "fst (onMessage parse dump inp (shared c))"
      "snd (onMessage parse dump inp (shared c))"]
  show ?thesis by auto
next
  case (DoGathering ginp)
  with assms step.gathering [of dump ginp c "fst (onGatheringStateChange dump ginp (shared c))"
      "snd (onGatheringStateChange dump ginp (shared c))" parse]
  show ?thesis by auto
next
  case DoOpened
  with assms show ?thesis by (auto intro: step.opened)
next
  case (DoFailed error)
  with assms show ?thesis by (auto intro: step.failed)
next
  case DoClosed
  with assms show ?thesis by (auto intro: step.closed)
qed

lemma perform_all_reachable:
  "reachable parse dump c \<Longrightarrow> perform_all parse dump as c = Some c' \<Longrightarrow> reachable parse dump c'"
proof (induction as arbitrary: c)
  case Nil
  then show ?case by simp
next
  case (Cons a as)
  from Cons.prems(2) obtain c1 where a: "perform parse dump a c = Some c1"
    and rest: "perform_all parse dump as c1 = Some c'"
    by (auto split: option.splits)
  from Cons.prems(1) perform_step [OF a] have "reachable parse dump c1"
    by (rule reachable.reach_step)
  from this rest show ?case
    by (rule Cons.IH)
qed

lemma first_call_reachable: "reachable parse dump first_call"
  by (rule reachable.reach_start)
     (simp add: at_first_call_def first_call_def onOpen_def world0_def emit_def closed_def)

subsection \<open>The relay loop\<close>

text \<open>Writing the SSRC field and reading it back gives the value written.\<close>

lemma ssrc_roundtrip:
  "RtpHeader_size \<le> n \<Longrightarrow> RtpHeader_ssrc (map (setSsrc x buf) [0..<n]) = Some x"
  apply (simp add: RtpHeader_ssrc_def RtpHeader_size_def setSsrc_def)
  apply (rule bit_word_eqI)
  apply (auto simp add: bit_simps)
  subgoal for k by (cases "16 \<le> k") auto
  subgoal for k by (cases "16 \<le> k"; cases "24 \<le> k") auto
  done

text \<open>
  Claim C1. A datagram of at least the RTP header size that arrives while a track is
  installed and open is handed to that track's \<^verbatim>\<open>send\<close> exactly once, and the packet
  handed over carries the fixed SSRC 42 whatever SSRC the datagram came with. This
  holds whether or not the send throws and a rebuild follows.
\<close>

theorem relayed_packet_ssrc:
  assumes "r_recv inp = Datagram d" and "RtpHeader_size \<le> length d"
    and "track w = Some t" and "r_isOpen inp"
  shows "\<exists>pkt. track_sends (trace (snd (relay_iter inp w))) = track_sends (trace w) @ [(t, pkt)]
           \<and> length pkt = min (length d) BUFFER_SIZE
           \<and> RtpHeader_ssrc pkt = Some ssrc \<and> ssrc = 42"
proof -
  let ?len = "min (length d) BUFFER_SIZE"
  let ?pkt = "map (setSsrc ssrc (recv_into d (buffer w))) [0..<?len]"
  have len: "RtpHeader_size \<le> ?len"
    using assms(2) by (simp add: BUFFER_SIZE_def RtpHeader_size_def)
  have "track_sends (trace (snd (relay_iter inp w))) = track_sends (trace w) @ [(t, ?pkt)]"
    using assms len
    by (cases "r_send inp")
       (simp_all add: relay_iter_def relay_front_def Let_def emit_def
          createPeerConnection_sends track_sends_append)
  moreover have "RtpHeader_ssrc ?pkt = Some ssrc"
    using len by (rule ssrc_roundtrip)
  ultimately show ?thesis
    by (simp add: ssrc_def)
qed

theorem relayed_packet_ssrc_witness:
  "r_recv (datagram_in rtp_packet) = Datagram rtp_packet \<and>
   RtpHeader_size \<le> length rtp_packet \<and>
   RtpHeader_ssrc rtp_packet = Some 0xDEADBEEF \<and>
   track live_world = Some (TrackOf 0) \<and> r_isOpen (datagram_in rtp_packet) \<and>
   (\<exists>pkt. track_sends (trace (snd (relay_iter (datagram_in rtp_packet) live_world))) =
            [(TrackOf 0, pkt)] \<and> RtpHeader_ssrc pkt = Some 42)"
proof -
  have recv: "r_recv (datagram_in rtp_packet) = Datagram rtp_packet"
    and is_open: "r_isOpen (datagram_in rtp_packet)"
    by (simp_all add: datagram_in_def)
  have long: "RtpHeader_size \<le> length rtp_packet"
    by (simp add: rtp_packet_def RtpHeader_size_def)
  have inbound: "RtpHeader_ssrc rtp_packet = Some 0xDEADBEEF"
    by (simp add: rtp_packet_def RtpHeader_ssrc_def RtpHeader_size_def)
  have installed: "track live_world = Some (TrackOf 0)"
    by (rule live_world_simps)
  from relayed_packet_ssrc [OF recv long installed is_open]
  have "\<exists>pkt. track_sends (trace (snd (relay_iter (datagram_in rtp_packet) live_world))) =
            [(TrackOf 0, pkt)] \<and> RtpHeader_ssrc pkt = Some 42"
    by (auto simp add: live_world_simps)
  with recv is_open long inbound installed show ?thesis
    by blast
qed

text \<open>The packet that the sample datagram becomes: bytes 8 to 11 replaced, the rest kept.\<close>

lemma relayed_packet_example:
  "track_sends (trace (snd (relay_iter (datagram_in rtp_packet) live_world))) =
     [(TrackOf 0, [128, 96, 0, 1, 0, 0, 0, 10, 0, 0, 0, 42, 1, 2, 3])]"
  by (simp add: relay_iter_def relay_front_def datagram_in_def rtp_packet_def live_world_simps
        Let_def emit_def track_sends_append BUFFER_SIZE_def RtpHeader_size_def
        setSsrc_def recv_into_def ssrc_def upt_conv_Cons)

text \<open>
  Claim C8. A datagram shorter than the RTP header is dropped: the pass ends without an
  exception and changes nothing but the receive buffer, so no packet is handed to a
  track, the Liveness Timestamp keeps its value and the idle flag is not cleared.
\<close>

theorem short_datagram_discarded:
  assumes "r_recv inp = Datagram d" and "length d < RtpHeader_size"
  shows "relay_iter inp w = (None, w\<lparr>buffer := recv_into d (buffer w)\<rparr>) \<and>
         track_sends (trace (snd (relay_iter inp w))) = track_sends (trace w) \<and>
         lastPacketMs (snd (relay_iter inp w)) = lastPacketMs w \<and>
         idle (snd (relay_iter inp w)) = idle w"
proof -
  have "min (length d) BUFFER_SIZE < RtpHeader_size"
    using assms(2) by simp
  with assms(1) have "relay_iter inp w = (None, w\<lparr>buffer := recv_into d (buffer w)\<rparr>)"
    by (simp add: relay_iter_def relay_front_def Let_def split: option.split)
  then show ?thesis
    by simp
qed

theorem short_datagram_discarded_witness:
  "r_recv (datagram_in [128, 96, 0, 1]) = Datagram [128, 96, 0, 1] \<and>
   length [128, 96, 0, 1 :: byte] < RtpHeader_size \<and>
   track live_world = Some (TrackOf 0) \<and> r_isOpen (datagram_in [128, 96, 0, 1]) \<and>
   track_sends (trace (snd (relay_iter (datagram_in [128, 96, 0, 1]) live_world))) = [] \<and>
   lastPacketMs (snd (relay_iter (datagram_in [128, 96, 0, 1]) live_world)) = 0 \<and>
   idle (snd (relay_iter (datagram_in [128, 96, 0, 1]) live_world))"
  using short_datagram_discarded [of "datagram_in [128, 96, 0, 1]" "[128, 96, 0, 1]" live_world]
  by (simp add: datagram_in_def RtpHeader_size_def live_world_simps)

text \<open>
  Claim C10. A datagram of sufficient length that arrives while the Slot has no track,
  or while the installed track is not open, is dropped in the same way: nothing is
  handed to a track, the Liveness Timestamp keeps its value and the idle flag is not
  cleared.
\<close>

theorem dead_track_datagram_discarded:
  assumes "r_recv inp = Datagram d" and "RtpHeader_size \<le> length d"
    and "track w = None \<or> \<not> r_isOpen inp"
  shows "relay_iter inp w = (None, w\<lparr>buffer := recv_into d (buffer w)\<rparr>) \<and>
         track_sends (trace (snd (relay_iter inp w))) = track_sends (trace w) \<and>
         lastPacketMs (snd (relay_iter inp w)) = lastPacketMs w \<and>
         idle (snd (relay_iter inp w)) = idle w"
proof -
  from assms(1,3) have "relay_iter inp w = (None, w\<lparr>buffer := recv_into d (buffer w)\<rparr>)"
    by (auto simp add: relay_iter_def relay_front_def Let_def split: option.split)
  then show ?thesis
    by simp
qed

theorem dead_track_datagram_discarded_witness:
  "r_recv ((datagram_in rtp_packet)\<lparr>r_isOpen := False\<rparr>) = Datagram rtp_packet \<and>
   RtpHeader_size \<le> length rtp_packet \<and>
   (track live_world = None \<or> \<not> r_isOpen ((datagram_in rtp_packet)\<lparr>r_isOpen := False\<rparr>)) \<and>
   track_sends (trace (snd (relay_iter ((datagram_in rtp_packet)\<lparr>r_isOpen := False\<rparr>) live_world))) = [] \<and>
   lastPacketMs (snd (relay_iter ((datagram_in rtp_packet)\<lparr>r_isOpen := False\<rparr>) live_world)) = 0 \<and>
   idle (snd (relay_iter ((datagram_in rtp_packet)\<lparr>r_isOpen := False\<rparr>) live_world))"
  using dead_track_datagram_discarded
    [of "(datagram_in rtp_packet)\<lparr>r_isOpen := False\<rparr>" rtp_packet live_world]
  by (simp add: datagram_in_def rtp_packet_def RtpHeader_size_def live_world_simps)

subsection \<open>The watchdog\<close>

lemma quiet_world_simps:
  "wsOpen quiet_world" "\<not> reconnecting quiet_world" "lastPacketMs quiet_world = 1000"
  "\<not> idle quiet_world" "pendingOffer quiet_world = ''v=0''" "rebuilds quiet_world = 1"
  "pc quiet_world = Some 0" "track quiet_world = Some (TrackOf 0)" "next_pc quiet_world = 1"
  "published quiet_world = [0]" "trace quiet_world = trace live_world"
  by (simp_all add: quiet_world_def live_world_simps)

lemmas watchdog_defs = watchdog_front_def watchdog_sleep_def watchdog_test_def
  watchdog_mark_def watchdog_clear_def





text \<open>The callbacks and the session factory leave the idle flag and the timestamp alone.\<close>

lemma idle_frame:
  "idle (snd (onMessage parse dump inp w)) = idle w"
  "idle (snd (onGatheringStateChange dump ginp w)) = idle w"
  "idle (onOpen w) = idle w" "idle (onError error w) = idle w" "idle (onClosed w) = idle w"
  by (simp_all add: onMessage_def onGatheringStateChange_def send_offer_def onOpen_def
        onError_def onClosed_def emit_def Let_def
        split: message_variant.split option.split sum.split apply_outcome.split)

text \<open>
  Claim C3. The claim is that a pass of the watchdog does nothing while the channel is
  not open or a rebuild is in progress. The guard of line 211 only adds a sleep: the
  pass goes on to the idle test. Here the channel is closed, respectively a rebuild is
  in progress, media has been silent for four seconds, and the pass sets the idle
  flag, clears the pending offer and rebuilds the session.
\<close>

theorem watchdog_guard_does_not_skip:
  "\<not> wsOpen stale_world \<and> \<not> idle stale_world \<and> pendingOffer stale_world = ''v=0'' \<and>
   rebuilds stale_world = 1 \<and> pc stale_world = Some 0 \<and>
   idle (snd (watchdog_tick (5000, BuildOk) stale_world)) \<and>
   pendingOffer (snd (watchdog_tick (5000, BuildOk) stale_world)) = [] \<and>
   rebuilds (snd (watchdog_tick (5000, BuildOk) stale_world)) = 2 \<and>
   pc (snd (watchdog_tick (5000, BuildOk) stale_world)) = Some 1 \<and>
   trace (snd (watchdog_tick (5000, BuildOk) stale_world)) =
     trace stale_world @
       [Sleep 200, Cout ''RTP idle detected, renegotiating...'', NewPc 1, AddTrack 1 96 42,
        SetLocalDescription 1, PcClose 0, Sleep 200] \<and>
   reconnecting (quiet_world\<lparr>reconnecting := True\<rparr>) \<and>
   idle (snd (watchdog_tick (5000, BuildOk) (quiet_world\<lparr>reconnecting := True\<rparr>))) \<and>
   pendingOffer (snd (watchdog_tick (5000, BuildOk) (quiet_world\<lparr>reconnecting := True\<rparr>))) = [] \<and>
   rebuilds (snd (watchdog_tick (5000, BuildOk) (quiet_world\<lparr>reconnecting := True\<rparr>))) = 2"
  by (simp add: stale_world_def quiet_world_simps watchdog_tick_def watchdog_defs
        idleThresholdMs_def cpc_defs ssrc_def)








subsection \<open>The session factory\<close>





subsection \<open>Signaling\<close>

lemma offered_world_simps:
  "pendingOffer offered_world = ''v=0''" "wsOpen offered_world"
  "remoteId offered_world = ''browser''" "ws_sends (trace offered_world) = []"
  by (simp_all add: offered_world_def live_world_simps)

lemma send_offer_sends:
  "ws_sends (trace (snd (send_offer dump thr w))) =
     ws_sends (trace w) @
       [dump (JObject [(''id'', JString (remoteId w)), (''type'', JString ''offer''),
                       (''sdp'', JString (pendingOffer w))])]"
  by (cases thr) (simp_all add: send_offer_def Let_def emit_def ws_sends_append)

text \<open>
  Claim C6. On a message whose discriminator is \<open>request\<close> or \<open>ready\<close>: with a pending
  offer and the channel open, exactly one string is handed to \<^verbatim>\<open>ws->send\<close>, the
  serialised object with \<open>id\<close> the remote peer, \<open>type\<close> \<open>offer\<close> and \<open>sdp\<close> the pending
  offer, which stays as it is; with no pending offer, or the channel not open, the
  handler returns with nothing changed.
\<close>

theorem offer_replay:
  assumes "m_data inp = Text s" and "parse s = Some message"
    and "json_find message ''type'' = Some (JString discriminator)"
    and "discriminator = ''request'' \<or> discriminator = ''ready''"
  shows "(pendingOffer w \<noteq> [] \<and> wsOpen w \<longrightarrow>
            ws_sends (trace (snd (onMessage parse dump inp w))) =
              ws_sends (trace w) @
                [dump (JObject [(''id'', JString (remoteId w)), (''type'', JString ''offer''),
                                (''sdp'', JString (pendingOffer w))])] \<and>
            pendingOffer (snd (onMessage parse dump inp w)) = pendingOffer w) \<and>
         (pendingOffer w = [] \<or> \<not> wsOpen w \<longrightarrow> onMessage parse dump inp w = (None, w))"
proof -
  from assms have "onMessage parse dump inp w =
      (if pendingOffer w \<noteq> [] \<and> wsOpen w then send_offer dump (m_send inp) w else (None, w))"
    by (auto simp add: onMessage_def)
  moreover have "pendingOffer (snd (send_offer dump (m_send inp) w)) = pendingOffer w"
    by (cases "m_send inp") (simp_all add: send_offer_def Let_def emit_def)
  ultimately show ?thesis
    by (auto simp add: send_offer_sends)
qed

theorem offer_replay_witness:
  "m_data (text_in ''ready'') = Text ''ready'' \<and>
   sample_parse ''ready'' = Some (JObject [(''type'', JString ''ready'')]) \<and>
   json_find (JObject [(''type'', JString ''ready'')]) ''type'' = Some (JString ''ready'') \<and>
   pendingOffer offered_world \<noteq> [] \<and> wsOpen offered_world \<and>
   ws_sends (trace (snd (onMessage sample_parse sample_dump (text_in ''ready'') offered_world))) =
     [''id=browser;type=offer;sdp=v=0;''] \<and>
   pendingOffer live_world = [] \<and>
   onMessage sample_parse sample_dump (text_in ''ready'') live_world = (None, live_world)"
proof -
  have data: "m_data (text_in ''ready'') = Text ''ready''"
    by (simp add: text_in_def)
  have parsed: "sample_parse ''ready'' = Some (JObject [(''type'', JString ''ready'')])"
    by (simp add: sample_parse_def)
  have found: "json_find (JObject [(''type'', JString ''ready'')]) ''type'' = Some (JString ''ready'')"
    by simp
  have kind: "''ready'' = ''request'' \<or> ''ready'' = ''ready''"
    by simp
  note replay = offer_replay [where inp = "text_in ''ready''" and s = "''ready''"
      and parse = sample_parse and dump = sample_dump, OF data parsed found kind]
  from replay [of offered_world]
  have "ws_sends (trace (snd (onMessage sample_parse sample_dump (text_in ''ready'') offered_world))) =
     [''id=browser;type=offer;sdp=v=0;'']"
    by (simp add: offered_world_simps)
  moreover from replay [of live_world]
  have "onMessage sample_parse sample_dump (text_in ''ready'') live_world = (None, live_world)"
    by (simp add: live_world_simps)
  ultimately show ?thesis
    using data parsed found by (simp add: offered_world_simps live_world_simps)
qed

text \<open>
  Claim C7. A text payload that does not parse, or parses to a value without a \<open>type\<close>
  member, or has the discriminator \<open>answer\<close> and no \<open>sdp\<close> member, is dropped: the
  handler returns without an exception and the state is unchanged, so the Slot and the
  pending offer are as before, no rebuild is started and nothing is sent.
\<close>

theorem malformed_signaling_dropped:
  assumes "m_data inp = Text s"
    and "parse s = None \<or>
         (\<exists>message. parse s = Some message \<and>
            (json_find message ''type'' = None \<or>
             json_find message ''type'' = Some (JString ''answer'') \<and>
             json_find message ''sdp'' = None))"
  shows "onMessage parse dump inp w = (None, w)"
  using assms by (auto simp add: onMessage_def)

theorem malformed_signaling_dropped_witness:
  "m_data (text_in ''answer'') = Text ''answer'' \<and>
   (\<exists>message. sample_parse ''answer'' = Some message \<and>
      json_find message ''type'' = Some (JString ''answer'') \<and>
      json_find message ''sdp'' = None) \<and>
   sample_parse ''garbage'' = None \<and>
   onMessage sample_parse sample_dump (text_in ''answer'') offered_world = (None, offered_world) \<and>
   onMessage sample_parse sample_dump (text_in ''garbage'') offered_world = (None, offered_world)"
proof -
  have data: "m_data (text_in ''answer'') = Text ''answer''"
    and data': "m_data (text_in ''garbage'') = Text ''garbage''"
    by (simp_all add: text_in_def)
  have shape: "\<exists>message. sample_parse ''answer'' = Some message \<and>
      json_find message ''type'' = Some (JString ''answer'') \<and>
      json_find message ''sdp'' = None"
    and garbage: "sample_parse ''garbage'' = None"
    by (simp_all add: sample_parse_def)
  from shape have "sample_parse ''answer'' = None \<or>
         (\<exists>message. sample_parse ''answer'' = Some message \<and>
            (json_find message ''type'' = None \<or>
             json_find message ''type'' = Some (JString ''answer'') \<and>
             json_find message ''sdp'' = None))"
    by blast
  from malformed_signaling_dropped
         [where inp = "text_in ''answer''" and s = "''answer''" and parse = sample_parse
            and dump = sample_dump and w = offered_world, OF data this]
  have "onMessage sample_parse sample_dump (text_in ''answer'') offered_world = (None, offered_world)" .
  moreover from garbage have "sample_parse ''garbage'' = None \<or>
         (\<exists>message. sample_parse ''garbage'' = Some message \<and>
            (json_find message ''type'' = None \<or>
             json_find message ''type'' = Some (JString ''answer'') \<and>
             json_find message ''sdp'' = None))"
    by blast
  from malformed_signaling_dropped
         [where inp = "text_in ''garbage''" and s = "''garbage''" and parse = sample_parse
            and dump = sample_dump and w = offered_world, OF data' this]
  have "onMessage sample_parse sample_dump (text_in ''garbage'') offered_world = (None, offered_world)" .
  ultimately show ?thesis
    using data shape garbage by blast
qed

subsection \<open>The process\<close>

lemma to_string_8000: "to_string 8000 = ''8000''"
  by (simp add: to_string.simps)

text \<open>Whatever reaches the top-level handler, the exit status is 0.\<close>

lemma top_level_catch_status: "fst (top_level_catch e tr) = Exit 0"
  by (cases e) (simp add: top_level_catch_def)

lemma help_exits_zero: "main (''--help'' # args) env = (Exit 0, [Cout usage])"
  by (cases args) (simp_all add: main_def other_argument_def)

lemma unknown_argument_exits_one:
  "main [''--verbose''] env = (Exit 1, [Cerr ''Unknown argument: --verbose''])"
  by (simp add: main_def other_argument_def)

lemma bad_port_exits_zero:
  "main [''--signaling-port'', ''http''] env = (Exit 0, [Cerr ''Error: stoi''])"
  by (simp add: main_def stoi_def isspace_def isdigit_def top_level_catch_def)

text \<open>
  Once the arguments are accepted, no run of \<^verbatim>\<open>main\<close> ends with a status other than
  0: every failure of the start-up and of the relay loop goes through the top-level
  handler.
\<close>

lemma main_status_after_arguments:
  assumes "snd (arg_loop args default_options) = Continue opts"
  shows "fst (main args env) = Exit 0 \<or> fst (main args env) = Running"
proof -
  obtain tr where "arg_loop args default_options = (tr, Continue opts)"
    using assms by (cases "arg_loop args default_options") simp
  then show ?thesis
    by (simp add: main_def Let_def top_level_catch_status
          split: option.split prod.split waited.split)
qed

text \<open>
  Claim C9. The claim is that a failure reaching the top level prints to standard
  error and exits with a non-zero status. The handler prints, and then \<^verbatim>\<open>main\<close>
  ends without a \<^verbatim>\<open>return\<close>: when binding the UDP socket fails, and when the channel
  closes before it has opened, the message goes to standard error and the exit status
  is 0. (The other two parts of the claim hold: \<open>help_exits_zero\<close> and
  \<open>unknown_argument_exits_one\<close>.)
\<close>

theorem top_level_failure_exits_zero:
  "main [] bind_fails =
     (Exit 0,
      [Cout ''WebSocket URL is ws://127.0.0.1:8000/sender'',
       WsConnect ''ws://127.0.0.1:8000/sender'',
       Cout ''Waiting for signaling to be connected...'', Sleep 100,
       Cout ''WebSocket connected, signaling ready'',
       Cerr ''Error: Failed to bind UDP socket on 127.0.0.1:6000'']) \<and>
   main [] channel_closes =
     (Exit 0,
      [Cout ''WebSocket URL is ws://127.0.0.1:8000/sender'',
       WsConnect ''ws://127.0.0.1:8000/sender'',
       Cout ''Waiting for signaling to be connected...'', Sleep 100,
       Cout ''WebSocket failed: refused'', Cout ''WebSocket closed'',
       Cerr ''Error: WebSocket closed before connection''])"
  by (simp add: main_def bind_fails_def channel_closes_def default_options_def to_string_8000
        world0_def emit_def Let_def onOpen_def onError_def onClosed_def top_level_catch_def)

subsection \<open>The Session Slot under concurrent rebuilds\<close>

lemma same_slot_refl: "same_slot w w"
  by (simp add: same_slot_def)

lemma same_slot_trans: "same_slot w w' \<Longrightarrow> same_slot w' w'' \<Longrightarrow> same_slot w w''"
  by (simp add: same_slot_def)

lemma same_slot_relay_front: "same_slot w (snd (relay_front inp w))"
  by (simp add: relay_front_def same_slot_def emit_def closed_def Let_def
        split: recv_result.split option.split)

lemma same_slot_watchdog:
  "same_slot w (watchdog_sleep w)" "same_slot w (watchdog_mark w)"
  "same_slot w (watchdog_clear w)"
  by (simp_all add: watchdog_sleep_def watchdog_mark_def watchdog_clear_def same_slot_def
        emit_def closed_def)

lemma same_slot_send_offer: "same_slot w (snd (send_offer dump thr w))"
  by (simp add: send_offer_def same_slot_def emit_def closed_def Let_def split: option.split)

lemma same_slot_onMessage: "same_slot w (snd (onMessage parse dump inp w))"
  by (simp add: onMessage_def same_slot_refl same_slot_send_offer
        split: message_variant.split option.split sum.split apply_outcome.split)
     (simp add: same_slot_def emit_def closed_def)

lemma same_slot_onGatheringStateChange:
  "same_slot w (snd (onGatheringStateChange dump ginp w))"
  by (simp add: onGatheringStateChange_def Let_def emit_def same_slot_def closed_def
        send_offer_def split: option.split)

lemma same_slot_callbacks:
  "same_slot w (onOpen w)" "same_slot w (onError error w)" "same_slot w (onClosed w)"
  by (simp_all add: onOpen_def onError_def onClosed_def same_slot_def emit_def closed_def)

lemma same_slot_cpc_enter: "same_slot w (cpc_enter w)"
  by (simp add: cpc_enter_def same_slot_def closed_def)

lemma same_slot_cpc_exit: "same_slot w (cpc_exit w)"
  by (simp add: cpc_exit_def same_slot_def closed_def)

lemma same_slot_sleep: "same_slot w (emit [Sleep n] w)"
  by (simp add: same_slot_def emit_def closed_def)


lemma cpc_construct_slot:
  "pc (snd (cpc_construct bo w)) = pc w"
  "track (snd (cpc_construct bo w)) = track w"
  "published (snd (cpc_construct bo w)) = published w"
  "closed (snd (cpc_construct bo w)) = closed w"
  "next_pc w \<le> next_pc (snd (cpc_construct bo w))"
  by (cases bo; simp add: cpc_construct_def emit_def closed_def Let_def)+

lemma cpc_construct_result:
  "fst (cpc_construct bo w) = Inr (p, tr) \<Longrightarrow>
     p = next_pc w \<and> tr = TrackOf p \<and> next_pc (snd (cpc_construct bo w)) = Suc p"
  by (cases bo; auto simp add: cpc_construct_def emit_def Let_def)

lemma cpc_install_slot:
  "pc (cpc_install p tr w) = Some p"
  "track (cpc_install p tr w) = Some tr"
  "published (cpc_install p tr w) = published w @ [p]"
  "next_pc (cpc_install p tr w) = next_pc w"
  "closed (cpc_install p tr w) = (case pc w of None \<Rightarrow> closed w | Some old \<Rightarrow> insert old (closed w))"
  by (auto simp add: cpc_install_def emit_def closed_def Let_def split: option.splits)

lemma build_invariant_same_slot:
  assumes "build_invariant c" and "same_slot (shared c) (shared c')"
    and "\<And>t p tr. phase_of c' t = Constructed p tr \<Longrightarrow> phase_of c t = Constructed p tr"
  shows "build_invariant c'"
proof -
  from assms(2) have eqs: "pc (shared c') = pc (shared c)" "track (shared c') = track (shared c)"
    "next_pc (shared c') = next_pc (shared c)" "published (shared c') = published (shared c)"
    "closed (shared c') = closed (shared c)"
    by (simp_all add: same_slot_def)
  from assms(1) have slot: "slot_invariant (shared c')"
    by (simp add: build_invariant_def slot_invariant_def eqs split: option.splits)
  from assms(1) have sub: "closed (shared c') \<subseteq> set (published (shared c'))"
    and below: "\<forall>p \<in> set (published (shared c')). p < next_pc (shared c')"
    by (simp_all add: build_invariant_def eqs)
  from assms(1) have old: "\<And>t p tr. phase_of c t = Constructed p tr \<Longrightarrow>
      p < next_pc (shared c') \<and> tr = TrackOf p \<and> p \<notin> set (published (shared c'))"
    and distinct: "\<And>p tr q tr'. phase_of c MainT = Constructed p tr \<Longrightarrow>
      phase_of c WatchdogT = Constructed q tr' \<Longrightarrow> p \<noteq> q"
    by (simp_all add: build_invariant_def eqs)
  have built: "p < next_pc (shared c') \<and> tr = TrackOf p \<and> p \<notin> set (published (shared c'))"
    if "phase_of c' t = Constructed p tr" for t p tr
    using that [THEN assms(3)] by (rule old)
  have apart: "p \<noteq> q"
    if "phase_of c' MainT = Constructed p tr" and "phase_of c' WatchdogT = Constructed q tr'"
    for p tr q tr'
    using that(1) [THEN assms(3)] that(2) [THEN assms(3)] by (rule distinct)
  from slot sub below built apart show ?thesis
    unfolding build_invariant_def by blast
qed


lemma published_current:
  "slot_invariant w \<Longrightarrow> pc w = Some old \<Longrightarrow> old \<in> set (published w)"
  by (auto simp add: slot_invariant_def dest: last_in_set)

lemma build_invariant_construct:
  assumes inv: "build_invariant c" and at: "phase_of c t = Entered"
    and res: "cpc_construct bo (shared c) = (r, w')"
  shows "build_invariant
           \<lparr>shared = w',
            phase_of = (phase_of c)
              (t := case r of Inl e \<Rightarrow> Thrown e | Inr (p, tr) \<Rightarrow> Constructed p tr)\<rparr>"
proof -
  let ?w = "shared c"
  define c' where "c' = \<lparr>shared = w', phase_of = (phase_of c)
              (t := case r of Inl e \<Rightarrow> Thrown e | Inr (p, tr) \<Rightarrow> Constructed p tr)\<rparr>"
  have c': "shared c' = w'" "phase_of c' t = (case r of Inl e \<Rightarrow> Thrown e | Inr (p, tr) \<Rightarrow> Constructed p tr)"
    "\<And>t'. t' \<noteq> t \<Longrightarrow> phase_of c' t' = phase_of c t'"
    by (simp_all add: c'_def)
  from res have w': "w' = snd (cpc_construct bo ?w)" and r: "r = fst (cpc_construct bo ?w)"
    by simp_all
  have eqs: "pc w' = pc ?w" "track w' = track ?w" "published w' = published ?w"
    "closed w' = closed ?w" and mono: "next_pc ?w \<le> next_pc w'"
    by (simp_all add: w' cpc_construct_slot)
  from inv have slot: "slot_invariant (shared c')"
    by (simp add: c' build_invariant_def slot_invariant_def eqs split: option.splits)
  from inv have sub: "closed (shared c') \<subseteq> set (published (shared c'))"
    by (simp add: c' build_invariant_def eqs)
  from inv have old: "\<And>t' p tr. phase_of c t' = Constructed p tr \<Longrightarrow>
      p < next_pc ?w \<and> tr = TrackOf p \<and> p \<notin> set (published ?w)"
    and distinct: "\<And>p tr q tr'. phase_of c MainT = Constructed p tr \<Longrightarrow>
      phase_of c WatchdogT = Constructed q tr' \<Longrightarrow> p \<noteq> q"
    and below: "\<And>p. p \<in> set (published ?w) \<Longrightarrow> p < next_pc ?w"
    by (simp_all add: build_invariant_def)
  from below mono have alloc: "\<forall>p \<in> set (published (shared c')). p < next_pc (shared c')"
    by (fastforce simp add: c' eqs)
  have new: "p = next_pc ?w \<and> tr = TrackOf p \<and> next_pc w' = Suc p"
    if "phase_of c' t = Constructed p tr" for p tr
  proof -
    from that have "r = Inr (p, tr)"
      by (cases r) (auto simp add: c')
    then show ?thesis
      using cpc_construct_result [of bo ?w p tr] by (simp add: r w')
  qed
  have new_fresh: "next_pc ?w \<notin> set (published ?w)"
    using below [of "next_pc ?w"] by blast
  have built: "p < next_pc (shared c') \<and> tr = TrackOf p \<and> p \<notin> set (published (shared c'))"
    if "phase_of c' t' = Constructed p tr" for t' p tr
  proof (cases "t' = t")
    case True
    with that new [of p tr] new_fresh show ?thesis
      by (simp add: c' eqs)
  next
    case False
    with that old [of t' p tr] mono show ?thesis
      by (simp add: c' eqs)
  qed
  have apart: "p \<noteq> q"
    if main: "phase_of c' MainT = Constructed p tr" and watch: "phase_of c' WatchdogT = Constructed q tr'"
    for p tr q tr'
  proof (cases t)
    case MainT
    with main new [of p tr] have "p = next_pc ?w"
      by simp
    moreover from MainT watch old [of WatchdogT q tr'] have "q < next_pc ?w"
      by (simp add: c')
    ultimately show ?thesis
      by simp
  next
    case WatchdogT
    with watch new [of q tr'] have "q = next_pc ?w"
      by simp
    moreover from WatchdogT main old [of MainT p tr] have "p < next_pc ?w"
      by (simp add: c')
    ultimately show ?thesis
      by simp
  qed
  from slot sub alloc built apart have "build_invariant c'"
    unfolding build_invariant_def by blast
  then show ?thesis
    by (simp add: c'_def)
qed


lemma build_invariant_install:
  assumes inv: "build_invariant c" and at: "phase_of c t = Constructed newPc newTrack"
  shows "build_invariant
           \<lparr>shared = cpc_install newPc newTrack (shared c),
            phase_of = (phase_of c)(t := Installed)\<rparr>"
proof -
  let ?w = "shared c"
  let ?w' = "cpc_install newPc newTrack ?w"
  define c' where "c' = \<lparr>shared = ?w', phase_of = (phase_of c)(t := Installed)\<rparr>"
  have c': "shared c' = ?w'" "phase_of c' t = Installed"
    "\<And>t'. t' \<noteq> t \<Longrightarrow> phase_of c' t' = phase_of c t'"
    by (simp_all add: c'_def)
  from inv have slot: "slot_invariant ?w" and sub: "closed ?w \<subseteq> set (published ?w)"
    and below: "\<And>p. p \<in> set (published ?w) \<Longrightarrow> p < next_pc ?w"
    and old: "\<And>t' p tr. phase_of c t' = Constructed p tr \<Longrightarrow>
      p < next_pc ?w \<and> tr = TrackOf p \<and> p \<notin> set (published ?w)"
    and distinct: "\<And>p tr q tr'. phase_of c MainT = Constructed p tr \<Longrightarrow>
      phase_of c WatchdogT = Constructed q tr' \<Longrightarrow> p \<noteq> q"
    by (simp_all add: build_invariant_def)
  from old [OF at] have new: "newPc < next_pc ?w" "newTrack = TrackOf newPc"
    "newPc \<notin> set (published ?w)"
    by simp_all
  have cur: "old \<in> set (published ?w)" if "pc ?w = Some old" for old
    using slot that by (rule published_current)
  have closed': "closed ?w' = (case pc ?w of None \<Rightarrow> closed ?w | Some old \<Rightarrow> insert old (closed ?w))"
    by (rule cpc_install_slot)
  have closed_sub: "closed ?w' \<subseteq> set (published ?w)"
  proof (cases "pc ?w")
    case None
    with sub show ?thesis by (simp add: closed')
  next
    case (Some old)
    with sub cur [of old] show ?thesis by (simp add: closed')
  qed
  with new(3) have not_closed: "newPc \<notin> closed ?w'"
    by blast
  have replaced: "p \<in> closed ?w'" if "p \<in> set (published ?w)" for p
  proof (cases "p \<in> closed ?w")
    case True
    then show ?thesis by (simp add: closed' split: option.split)
  next
    case False
    with slot that have "pc ?w = Some p"
      by (simp add: slot_invariant_def)
    then show ?thesis by (simp add: closed')
  qed
  have slot': "slot_invariant (shared c')"
    unfolding slot_invariant_def c'
    using not_closed new(2) replaced
    by (auto simp add: cpc_install_slot(1-4))
  have sub': "closed (shared c') \<subseteq> set (published (shared c'))"
    using closed_sub by (auto simp add: c' cpc_install_slot(3))
  have alloc: "\<forall>p \<in> set (published (shared c')). p < next_pc (shared c')"
    using below new(1) by (auto simp add: c' cpc_install_slot(3,4))
  have other_thread: "p \<noteq> newPc" if "phase_of c t' = Constructed p tr" "t' \<noteq> t" for t' p tr
    using that at distinct [of p tr newPc newTrack] distinct [of newPc newTrack p tr]
    by (cases t; cases t') auto
  have built: "p < next_pc (shared c') \<and> tr = TrackOf p \<and> p \<notin> set (published (shared c'))"
    if "phase_of c' t' = Constructed p tr" for t' p tr
  proof (cases "t' = t")
    case True
    with that show ?thesis by (simp add: c')
  next
    case False
    with that have "phase_of c t' = Constructed p tr"
      by (simp add: c')
    with False old [of t' p tr] other_thread [of t' p tr] show ?thesis
      by (simp add: c' cpc_install_slot(3,4))
  qed
  have apart: "p \<noteq> q"
    if "phase_of c' MainT = Constructed p tr" and "phase_of c' WatchdogT = Constructed q tr'"
    for p tr q tr'
    using that c'(2) by (cases t) simp_all
  from slot' sub' alloc built apart have "build_invariant c'"
    unfolding build_invariant_def by blast
  then show ?thesis
    by (simp add: c'_def)
qed


lemma step_build_invariant:
  assumes "step parse dump c c'" and "build_invariant c"
  shows "build_invariant c'"
  using assms
proof (induction rule: step.induct)
  case (relay c inp fire w')
  from relay(2) have same: "same_slot (shared c) w'"
    using same_slot_relay_front [of "shared c" inp] by simp
  from relay(3) show ?case
    by (rule build_invariant_same_slot) (use same in \<open>simp_all split: if_splits\<close>)
next
  case (guard c)
  from guard(2) show ?case
    by (rule build_invariant_same_slot) (simp_all add: same_slot_watchdog split: if_splits)
next
  case (load c nowMs)
  from load(2) show ?case
    by (rule build_invariant_same_slot) (simp_all add: same_slot_refl split: if_splits)
next
  case (test c nowMs lastMs)
  from test(2) show ?case
    by (rule build_invariant_same_slot)
       (simp_all add: same_slot_refl same_slot_sleep split: if_splits)
next
  case (mark c)
  from mark(2) show ?case
    by (rule build_invariant_same_slot) (simp_all add: same_slot_watchdog split: if_splits)
next
  case (clear c)
  from clear(2) show ?case
    by (rule build_invariant_same_slot) (simp_all add: same_slot_watchdog split: if_splits)
next
  case (enter c t)
  from enter(2) show ?case
    by (rule build_invariant_same_slot) (simp_all add: same_slot_cpc_enter split: if_splits)
next
  case (construct c t bo newPc newTrack w')
  from build_invariant_construct [OF construct(3) construct(1) construct(2)]
  show ?case by simp
next
  case (throw c t bo e w')
  from build_invariant_construct [OF throw(3) throw(1) throw(2)]
  show ?case by simp
next
  case (install c t newPc newTrack)
  from install(2) install(1) show ?case
    by (rule build_invariant_install)
next
  case (leave c t)
  have same: "same_slot (shared c) (if t = WatchdogT then emit [Sleep 200] (cpc_exit (shared c))
                  else cpc_exit (shared c))"
    using same_slot_cpc_exit [of "shared c"] same_slot_sleep [of "cpc_exit (shared c)" 200]
    by (simp add: same_slot_def)
  from leave(2) show ?case
    by (rule build_invariant_same_slot) (use same in \<open>simp_all split: if_splits\<close>)
next
  case (message inp c r w')
  from message(1) have same: "same_slot (shared c) w'"
    using same_slot_onMessage [of "shared c" parse dump inp] by simp
  from message(2) show ?case
    by (rule build_invariant_same_slot) (use same in simp_all)
next
  case (gathering ginp c r w')
  from gathering(1) have same: "same_slot (shared c) w'"
    using same_slot_onGatheringStateChange [of "shared c" dump ginp] by simp
  from gathering(2) show ?case
    by (rule build_invariant_same_slot) (use same in simp_all)
next
  case (opened c)
  then show ?case
    by (rule build_invariant_same_slot) (simp_all add: same_slot_callbacks)
next
  case (failed c error)
  then show ?case
    by (rule build_invariant_same_slot) (simp_all add: same_slot_callbacks)
next
  case (closed c)
  then show ?case
    by (rule build_invariant_same_slot) (simp_all add: same_slot_callbacks)
qed

lemma at_first_call_build_invariant:
  assumes "at_first_call c"
  shows "build_invariant c"
proof -
  have "phase_of c t \<noteq> Constructed p tr" for t p tr
    using assms by (cases t) (simp_all add: at_first_call_def)
  with assms show ?thesis
    by (simp add: at_first_call_def build_invariant_def slot_invariant_def)
qed

lemma reachable_build_invariant: "reachable parse dump c \<Longrightarrow> build_invariant c"
proof (induction rule: reachable.induct)
  case (reach_start c)
  then show ?case by (rule at_first_call_build_invariant)
next
  case (reach_step c c')
  from reach_step(2) reach_step(3) show ?case by (rule step_build_invariant)
qed

text \<open>
  Claim C2. In every configuration that a run of the two threads and the callbacks
  reaches, in whatever order their steps come: of the sessions the Slot has held only
  the current one is not closed, and once a session has been published the Slot holds
  the session published last, not closed, with its own track. And wherever a thread
  has built a pair, its locked block, one step, installs that pair and closes the
  session that was in the Slot.
\<close>

theorem single_active_session:
  assumes "reachable parse dump c"
  shows "slot_invariant (shared c) \<and>
         (\<forall>t newPc newTrack. phase_of c t = Constructed newPc newTrack \<longrightarrow>
            pc (cpc_install newPc newTrack (shared c)) = Some newPc \<and>
            track (cpc_install newPc newTrack (shared c)) = Some (TrackOf newPc) \<and>
            newPc \<notin> closed (cpc_install newPc newTrack (shared c)) \<and>
            (\<forall>old. pc (shared c) = Some old \<longrightarrow>
               old \<in> closed (cpc_install newPc newTrack (shared c))))"
proof -
  from assms have inv: "build_invariant c"
    by (rule reachable_build_invariant)
  have "pc (cpc_install newPc newTrack (shared c)) = Some newPc \<and>
        track (cpc_install newPc newTrack (shared c)) = Some (TrackOf newPc) \<and>
        newPc \<notin> closed (cpc_install newPc newTrack (shared c)) \<and>
        (\<forall>old. pc (shared c) = Some old \<longrightarrow>
           old \<in> closed (cpc_install newPc newTrack (shared c)))"
    if at: "phase_of c t = Constructed newPc newTrack" for t newPc newTrack
  proof -
    from build_invariant_install [OF inv at]
    have "slot_invariant (cpc_install newPc newTrack (shared c))"
      by (simp add: build_invariant_def)
    then show ?thesis
      by (simp add: slot_invariant_def cpc_install_slot)
  qed
  with inv show ?thesis
    by (simp add: build_invariant_def)
qed

theorem single_active_session_witness:
  "\<exists>c. perform_all sample_parse sample_dump overlapping_rebuilds first_call = Some c \<and>
       reachable sample_parse sample_dump c \<and> slot_invariant (shared c) \<and>
       pc (shared c) = Some 1 \<and> track (shared c) = Some (TrackOf 1) \<and>
       published (shared c) = [0, 2, 1] \<and> closed (shared c) = {0, 2}"
proof -
  have "\<exists>c. perform_all sample_parse sample_dump overlapping_rebuilds first_call = Some c \<and>
       pc (shared c) = Some 1 \<and> track (shared c) = Some (TrackOf 1) \<and>
       published (shared c) = [0, 2, 1] \<and> closed (shared c) = {0, 2}"
    by (auto simp add: overlapping_rebuilds_def first_call_def datagram_in_def rtp_packet_def
          relay_front_def watchdog_sleep_def watchdog_test_def watchdog_mark_def watchdog_clear_def
          idleThresholdMs_def BUFFER_SIZE_def
          RtpHeader_size_def cpc_enter_def cpc_construct_def cpc_install_def cpc_exit_def
          emit_def Let_def onOpen_def world0_def closed_def)
  then obtain c where run: "perform_all sample_parse sample_dump overlapping_rebuilds first_call = Some c"
    and final: "pc (shared c) = Some 1" "track (shared c) = Some (TrackOf 1)"
      "published (shared c) = [0, 2, 1]" "closed (shared c) = {0, 2}"
    by blast
  from first_call_reachable run have reach: "reachable sample_parse sample_dump c"
    by (rule perform_all_reachable)
  from single_active_session [OF reach] have "slot_invariant (shared c)"
    by simp
  with run reach final show ?thesis
    by blast
qed

end
